theory Spec2Isabelle
  imports Main "HOL-Library.Char_ord" "HOL-Library.Sublist"
begin

section \<open>Token model (parserTask.py, classes TokenType and Token)\<close>

datatype TokenType =
    KEYWORD | DATATYPE | IDENTIFIER | NUMBER | STRING | CHAR_LITERAL | OPERATOR
  | SEMICOLON | COMMA | LPAREN | RPAREN | LBRACE | RBRACE | LBRACKET | RBRACKET
  | PREPROCESSOR | COMMENT | WHITESPACE | UNKNOWN

text \<open>
  \<open>TokenType.CHAR\<close> is \<open>CHAR_LITERAL\<close> here: \<open>CHAR\<close> is taken by the syntax of HOL.

  The fields of class \<open>Token\<close> are \<open>type\<close>, \<open>value\<close>, \<open>line\<close> and \<open>col\<close>. They carry the
  prefix \<open>tok_\<close> here, because a record field is a global constant and the loops below
  have local variables called \<open>line\<close> and \<open>col\<close>.
\<close>

record Token =
  tok_type :: TokenType
  tok_value :: string
  tok_line :: nat
  tok_col :: nat

text \<open>Exceptions that the indexing and dictionary look-ups of the source can raise.\<close>

datatype py_error = IndexError | KeyError

definition getitem :: "'a list \<Rightarrow> nat \<Rightarrow> py_error + 'a" where
  "getitem xs i = (if i < length xs then Inr (xs ! i) else Inl IndexError)"

subsection \<open>Formatting of the diagnostics (the f-strings of class Parser)\<close>

definition digit_char :: "nat \<Rightarrow> char" where
  "digit_char d =
     (if d = 0 then CHR ''0'' else if d = 1 then CHR ''1'' else if d = 2 then CHR ''2''
      else if d = 3 then CHR ''3'' else if d = 4 then CHR ''4'' else if d = 5 then CHR ''5''
      else if d = 6 then CHR ''6'' else if d = 7 then CHR ''7'' else if d = 8 then CHR ''8''
      else CHR ''9'')"

text \<open>\<open>str(n)\<close> for a non-negative integer: its decimal digits.\<close>

fun str_nat :: "nat \<Rightarrow> string" where
  "str_nat n = (if n < 10 then [digit_char n] else str_nat (n div 10) @ [digit_char (n mod 10)])"

definition quoted :: "string \<Rightarrow> string" where
  "quoted s = [CHR 0x27] @ s @ [CHR 0x27]"

definition unknown_msg :: "Token \<Rightarrow> string" where
  "unknown_msg t =
     ''Unknown token '' @ quoted (tok_value t) @ '' at line '' @ str_nat (tok_line t)
       @ '', col '' @ str_nat (tok_col t)"

definition unmatched_msg :: "Token \<Rightarrow> string" where
  "unmatched_msg t =
     ''Unmatched closing delimiter '' @ quoted (tok_value t) @ '' at line '' @ str_nat (tok_line t)"

definition mismatched_msg :: "Token \<Rightarrow> Token \<Rightarrow> string" where
  "mismatched_msg open_token t =
     ''Mismatched delimiters: '' @ quoted (tok_value open_token) @ '' at line ''
       @ str_nat (tok_line open_token) @ '' and '' @ quoted (tok_value t) @ '' at line ''
       @ str_nat (tok_line t)"

definition unclosed_msg :: "Token \<Rightarrow> string" where
  "unclosed_msg t =
     ''Unclosed delimiter '' @ quoted (tok_value t) @ '' at line '' @ str_nat (tok_line t)"

definition missing_semicolon_msg :: "Token \<Rightarrow> string" where
  "missing_semicolon_msg t =
     ''Missing semicolon after '' @ quoted (tok_value t) @ '' statement at line ''
       @ str_nat (tok_line t)"

section \<open>The validator (parserTask.py, class Parser)\<close>

record Parser =
  parser_tokens :: "Token list"
  parser_pos :: nat
  parser_errors :: "string list"

text \<open>\<open>Parser.__init__\<close>: the comment tokens are filtered out before anything else.\<close>

definition Parser_init :: "Token list \<Rightarrow> Parser" where
  "Parser_init toks =
     \<lparr>parser_tokens = filter (\<lambda>t. tok_type t \<noteq> COMMENT) toks, parser_pos = 0, parser_errors = []\<rparr>"

text \<open>The first loop of \<open>parse\<close>: one message for every token of type UNKNOWN.\<close>

fun unknown_loop :: "Token list \<Rightarrow> string list \<Rightarrow> string list" where
  "unknown_loop [] errs = errs"
| "unknown_loop (t # ts) errs =
     unknown_loop ts (if tok_type t = UNKNOWN then errs @ [unknown_msg t] else errs)"

subsection \<open>check_balanced_delimiters\<close>

text \<open>The dictionary \<open>pairs\<close>, in the order it is written.\<close>

definition pairs :: "(TokenType \<times> TokenType) list" where
  "pairs = [(LPAREN, RPAREN), (LBRACE, RBRACE), (LBRACKET, RBRACKET)]"

text \<open>
  The \<open>for token in self.tokens\<close> loop. The stack is a Python list: \<open>append\<close> adds at the
  end, \<open>pop\<close> takes the last element. \<open>pairs[open_type]\<close> raises KeyError on a missing key.
\<close>

fun delimiter_loop ::
  "Token list \<Rightarrow> (TokenType \<times> Token) list \<Rightarrow> string list
    \<Rightarrow> py_error + ((TokenType \<times> Token) list \<times> string list)" where
  "delimiter_loop [] stack errs = Inr (stack, errs)"
| "delimiter_loop (t # ts) stack errs =
     (if tok_type t \<in> set (map fst pairs) then
        delimiter_loop ts (stack @ [(tok_type t, t)]) errs
      else if tok_type t \<in> set (map snd pairs) then
        (if stack = [] then delimiter_loop ts stack (errs @ [unmatched_msg t])
         else
           (case map_of pairs (fst (last stack)) of
              None \<Rightarrow> Inl KeyError
            | Some closer \<Rightarrow>
                if closer \<noteq> tok_type t
                then delimiter_loop ts (butlast stack)
                       (errs @ [mismatched_msg (snd (last stack)) t])
                else delimiter_loop ts (butlast stack) errs))
      else delimiter_loop ts stack errs)"

text \<open>The final \<open>for open_type, token in stack\<close> loop, from the base of the stack.\<close>

fun unclosed_loop :: "(TokenType \<times> Token) list \<Rightarrow> string list \<Rightarrow> string list" where
  "unclosed_loop [] errs = errs"
| "unclosed_loop ((open_type, t) # stack) errs = unclosed_loop stack (errs @ [unclosed_msg t])"

definition check_balanced_delimiters :: "Parser \<Rightarrow> py_error + Parser" where
  "check_balanced_delimiters p =
     (case delimiter_loop (parser_tokens p) [] (parser_errors p) of
        Inl e \<Rightarrow> Inl e
      | Inr (stack, errs) \<Rightarrow> Inr (p\<lparr>parser_errors := unclosed_loop stack errs\<rparr>))"

subsection \<open>check_statement_structure\<close>

text \<open>
  The inner \<open>while j < len(self.tokens)\<close> loop. It returns the final \<open>j\<close> and
  \<open>found_semicolon\<close>.
\<close>

function scan_forward :: "Token list \<Rightarrow> nat \<Rightarrow> py_error + (nat \<times> bool)" where
  "scan_forward ts j =
     (if j < length ts then
        (case getitem ts j of
           Inl e \<Rightarrow> Inl e
         | Inr tj \<Rightarrow>
             if tok_type tj = SEMICOLON then Inr (j, True)
             else if tok_type tj \<in> {LBRACE, RBRACE} then Inr (j, False)
             else scan_forward ts (j + 1))
      else Inr (j, False))"
  by pat_completeness auto
termination
  by (relation "measure (\<lambda>(ts, j). length ts - j)") auto

text \<open>The outer \<open>while i < len(self.tokens)\<close> loop, with the list of errors passed along.\<close>

function statement_loop :: "Token list \<Rightarrow> nat \<Rightarrow> string list \<Rightarrow> py_error + string list" where
  "statement_loop ts i errs =
     (if i < length ts then
        (case getitem ts i of
           Inl e \<Rightarrow> Inl e
         | Inr token \<Rightarrow>
             if tok_type token = PREPROCESSOR then statement_loop ts (i + 1) errs
             else if tok_type token = KEYWORD
                     \<and> tok_value token \<in> {''return'', ''break'', ''continue''} then
               (case scan_forward ts (i + 1) of
                  Inl e \<Rightarrow> Inl e
                | Inr (j, found_semicolon) \<Rightarrow>
                    if \<not> found_semicolon \<and> j < length ts then
                      (case getitem ts j of
                         Inl e \<Rightarrow> Inl e
                       | Inr tj \<Rightarrow>
                           if tok_type tj \<noteq> LBRACE
                           then statement_loop ts (i + 1) (errs @ [missing_semicolon_msg token])
                           else statement_loop ts (i + 1) errs)
                    else statement_loop ts (i + 1) errs)
             else statement_loop ts (i + 1) errs)
      else Inr errs)"
  by pat_completeness auto
termination
  by (relation "measure (\<lambda>(ts, i, errs). length ts - i)") auto

declare scan_forward.simps [simp del] statement_loop.simps [simp del] str_nat.simps [simp del]

definition check_statement_structure :: "Parser \<Rightarrow> py_error + Parser" where
  "check_statement_structure p =
     (case statement_loop (parser_tokens p) 0 (parser_errors p) of
        Inl e \<Rightarrow> Inl e
      | Inr errs \<Rightarrow> Inr (p\<lparr>parser_errors := errs\<rparr>))"

subsection \<open>parse, and the validation of a token sequence\<close>

text \<open>\<open>parse\<close> returns the updated parser and the verdict \<open>len(self.errors) == 0\<close>.\<close>

definition parse :: "Parser \<Rightarrow> py_error + (Parser \<times> bool)" where
  "parse p =
     (let p1 = p\<lparr>parser_errors := []\<rparr>;
          p2 = p1\<lparr>parser_errors := unknown_loop (parser_tokens p1) (parser_errors p1)\<rparr>
      in case check_balanced_delimiters p2 of
           Inl e \<Rightarrow> Inl e
         | Inr p3 \<Rightarrow>
             (case check_statement_structure p3 of
                Inl e \<Rightarrow> Inl e
              | Inr p4 \<Rightarrow> Inr (p4, length (parser_errors p4) = 0)))"

text \<open>
  The validation as \<open>main\<close> runs it: \<open>parser = Parser(tokens)\<close>, \<open>is_valid = parser.parse()\<close>,
  then \<open>parser.errors\<close> is read. The result is the verdict and the diagnostics.
\<close>

definition validate :: "Token list \<Rightarrow> py_error + (bool \<times> string list)" where
  "validate toks =
     (case parse (Parser_init toks) of
        Inl e \<Rightarrow> Inl e
      | Inr (p, ok) \<Rightarrow> Inr (ok, parser_errors p))"

section \<open>Regular expressions as Python's re matches them\<close>

text \<open>
  Both tokenizers are driven by regular expressions. The patterns of the source are
  written below as values of the datatype \<open>regex\<close>, and \<open>ends\<close> lists the positions where
  a match of a pattern can end, in the order in which a backtracking matcher tries them:
  a greedy quantifier prefers one more iteration, a lazy one prefers to stop, an
  alternation prefers its left branch. \<open>re.match\<close> returns the first of them.

  Characters are the type \<open>char\<close>, and the classes \<open>\d\<close>, \<open>\w\<close> and \<open>\s\<close> are the ASCII
  ones (for \<open>\s\<close>: space, \<open>\t \n \v \f \r\<close> and the separators \<open>0x1C\<close> to \<open>0x1F\<close>, as for
  Python's \<open>str\<close>). The model is of the tokenizers on ASCII text.
\<close>

definition is_digit :: "char \<Rightarrow> bool" where
  "is_digit c = (CHR ''0'' \<le> c \<and> c \<le> CHR ''9'')"

definition is_alpha :: "char \<Rightarrow> bool" where
  "is_alpha c = ((CHR ''a'' \<le> c \<and> c \<le> CHR ''z'') \<or> (CHR ''A'' \<le> c \<and> c \<le> CHR ''Z''))"

definition is_word :: "char \<Rightarrow> bool" where
  "is_word c = (is_alpha c \<or> is_digit c \<or> c = CHR ''_'')"

definition is_space :: "char \<Rightarrow> bool" where
  "is_space c = (c \<in> set [CHR '' '', CHR 0x09, CHR 0x0A, CHR 0x0B, CHR 0x0C, CHR 0x0D,
                           CHR 0x1C, CHR 0x1D, CHR 0x1E, CHR 0x1F])"

text \<open>The members of a bracketed class: a character, a range, or one of \<open>\d \w \s \S\<close>.\<close>

datatype citem = Ch char | Rng char char | ClsD | ClsW | ClsS | ClsNotS

fun in_citem :: "citem \<Rightarrow> char \<Rightarrow> bool" where
  "in_citem (Ch a) c = (c = a)"
| "in_citem (Rng a b) c = (a \<le> c \<and> c \<le> b)"
| "in_citem ClsD c = is_digit c"
| "in_citem ClsW c = is_word c"
| "in_citem ClsS c = is_space c"
| "in_citem ClsNotS c = (\<not> is_space c)"

datatype re_flag = MULTILINE | DOTALL

text \<open>
  \<open>Lit\<close> a character, \<open>Dot\<close> for \<open>.\<close>, \<open>Set\<close> and \<open>NSet\<close> for \<open>[...]\<close> and \<open>[^...]\<close>, \<open>WordB\<close> for
  \<open>\b\<close>, \<open>Eol\<close> for \<open>$\<close>, \<open>Seq\<close> and \<open>Alt\<close> for concatenation and \<open>|\<close>, \<open>Opt\<close> for \<open>?\<close>, \<open>Star\<close> for
  \<open>*\<close> and \<open>LazyStar\<close> for \<open>*?\<close>.
\<close>

datatype regex =
    Lit char
  | Dot
  | Set "citem list"
  | NSet "citem list"
  | WordB
  | Eol
  | Seq regex regex
  | Alt regex regex
  | Opt regex
  | Star regex
  | LazyStar regex

text \<open>
  A position in the subject: the character before it (if any, \<open>\b\<close> looks at it) and the
  text from it on.
\<close>

type_synonym mstate = "char option \<times> string"

fun step :: "(char \<Rightarrow> bool) \<Rightarrow> mstate \<Rightarrow> mstate list" where
  "step P (p, []) = []"
| "step P (p, c # cs) = (if P c then [(Some c, cs)] else [])"

definition at_boundary :: "mstate \<Rightarrow> bool" where
  "at_boundary st =
     ((case fst st of None \<Rightarrow> False | Some c \<Rightarrow> is_word c)
      \<noteq> (case snd st of [] \<Rightarrow> False | c # cs \<Rightarrow> is_word c))"

definition at_eol :: "re_flag list \<Rightarrow> mstate \<Rightarrow> bool" where
  "at_eol fl st =
     (case snd st of
        [] \<Rightarrow> True
      | c # cs \<Rightarrow> c = CHR 0x0A \<and> (MULTILINE \<in> set fl \<or> cs = []))"

function ends :: "re_flag list \<Rightarrow> regex \<Rightarrow> mstate \<Rightarrow> mstate list" where
  "ends fl (Lit a) st = step (\<lambda>c. c = a) st"
| "ends fl Dot st = step (\<lambda>c. DOTALL \<in> set fl \<or> c \<noteq> CHR 0x0A) st"
| "ends fl (Set cs) st = step (\<lambda>c. list_ex (\<lambda>i. in_citem i c) cs) st"
| "ends fl (NSet cs) st = step (\<lambda>c. \<not> list_ex (\<lambda>i. in_citem i c) cs) st"
| "ends fl WordB st = (if at_boundary st then [st] else [])"
| "ends fl Eol st = (if at_eol fl st then [st] else [])"
| "ends fl (Seq r1 r2) st = concat (map (ends fl r2) (ends fl r1 st))"
| "ends fl (Alt r1 r2) st = ends fl r1 st @ ends fl r2 st"
| "ends fl (Opt r) st = ends fl r st @ [st]"
| "ends fl (Star r) st =
     concat (map (\<lambda>st'. if length (snd st') < length (snd st) then ends fl (Star r) st' else [])
               (ends fl r st)) @ [st]"
| "ends fl (LazyStar r) st =
     st # concat (map (\<lambda>st'. if length (snd st') < length (snd st)
                             then ends fl (LazyStar r) st' else [])
                    (ends fl r st))"
  by pat_completeness auto
termination
  by (relation "measures [\<lambda>(fl, r, st). size r, \<lambda>(fl, r, st). length (snd st)]") auto

declare ends.simps(10,11) [simp del]

text \<open>\<open>r+\<close>, \<open>r{1,2}\<close>, a sequence of patterns, a literal string and an alternation of several.\<close>

definition Plus :: "regex \<Rightarrow> regex" where
  "Plus r = Seq r (Star r)"

definition Rep12 :: "regex \<Rightarrow> regex" where
  "Rep12 r = Seq r (Opt r)"

fun cat :: "regex list \<Rightarrow> regex" where
  "cat [] = Opt (Set [])"
| "cat [r] = r"
| "cat (r # rs) = Seq r (cat rs)"

definition lit :: "string \<Rightarrow> regex" where
  "lit s = cat (map Lit s)"

fun alts :: "regex list \<Rightarrow> regex" where
  "alts [] = Set []"
| "alts [r] = r"
| "alts (r # rs) = Alt r (alts rs)"

text \<open>
  \<open>pattern.match(s, pos)\<close> with \<open>p\<close> the character before \<open>pos\<close> and \<open>s\<close> the text from \<open>pos\<close>
  on: the matched text (\<open>group(0)\<close>) of the first successful way to match, or None.
\<close>

definition re_match :: "re_flag list \<Rightarrow> regex \<Rightarrow> char option \<Rightarrow> string \<Rightarrow> string option" where
  "re_match fl r p s =
     (case ends fl r (p, s) of
        [] \<Rightarrow> None
      | st # sts \<Rightarrow> Some (take (length s - length (snd st)) s))"

text \<open>
  A pattern that cannot match the empty string, by its shape. All patterns of both
  tokenizers have it, which is what makes their loops advance.
\<close>

fun consuming :: "regex \<Rightarrow> bool" where
  "consuming (Lit a) = True"
| "consuming Dot = True"
| "consuming (Set cs) = True"
| "consuming (NSet cs) = True"
| "consuming WordB = False"
| "consuming Eol = False"
| "consuming (Seq r1 r2) = (consuming r1 \<or> consuming r2)"
| "consuming (Alt r1 r2) = (consuming r1 \<and> consuming r2)"
| "consuming (Opt r) = False"
| "consuming (Star r) = False"
| "consuming (LazyStar r) = False"

lemma step_suffix: "st' \<in> set (step P st) \<Longrightarrow> length (snd st') < length (snd st) \<and> suffix (snd st') (snd st)"
  by (cases "(P, st)" rule: step.cases) (auto simp: suffix_Cons split: if_splits)

lemma in_ends_Star:
  "st' \<in> set (ends fl (Star r) st) \<longleftrightarrow>
     st' = st \<or> (\<exists>m \<in> set (ends fl r st). length (snd m) < length (snd st)
                      \<and> st' \<in> set (ends fl (Star r) m))"
  by (subst ends.simps) auto

lemma in_ends_LazyStar:
  "st' \<in> set (ends fl (LazyStar r) st) \<longleftrightarrow>
     st' = st \<or> (\<exists>m \<in> set (ends fl r st). length (snd m) < length (snd st)
                      \<and> st' \<in> set (ends fl (LazyStar r) m))"
  by (subst ends.simps) auto

lemma ends_suffix: "st' \<in> set (ends fl r st) \<Longrightarrow> suffix (snd st') (snd st)"
proof (induction fl r st arbitrary: st' rule: ends.induct)
  case (7 fl r1 r2 st)
  then obtain m where m: "m \<in> set (ends fl r1 st)" "st' \<in> set (ends fl r2 m)"
    by auto
  from "7.IH"(2)[OF m(1) m(2)] "7.IH"(1)[OF m(1)] show ?case
    by (rule suffix_order.trans)
next
  case (10 fl r st)
  show ?case
  proof (cases "st' = st")
    case False
    with "10.prems" obtain m where m: "m \<in> set (ends fl r st)"
      "length (snd m) < length (snd st)" "st' \<in> set (ends fl (Star r) m)"
      unfolding in_ends_Star[of st' fl r st] by blast
    from "10.IH"(2)[OF m(1) m(2) m(3)] "10.IH"(1)[OF m(1)] show ?thesis
      by (rule suffix_order.trans)
  qed simp
next
  case (11 fl r st)
  show ?case
  proof (cases "st' = st")
    case False
    with "11.prems" obtain m where m: "m \<in> set (ends fl r st)"
      "length (snd m) < length (snd st)" "st' \<in> set (ends fl (LazyStar r) m)"
      unfolding in_ends_LazyStar[of st' fl r st] by blast
    from "11.IH"(2)[OF m(1) m(2) m(3)] "11.IH"(1)[OF m(1)] show ?thesis
      by (rule suffix_order.trans)
  qed simp
qed (auto dest: step_suffix split: if_splits)

lemma ends_shorter:
  "consuming r \<Longrightarrow> st' \<in> set (ends fl r st) \<Longrightarrow> length (snd st') < length (snd st)"
proof (induction r arbitrary: st st')
  case (Seq r1 r2)
  from Seq.prems(2) obtain m where m: "m \<in> set (ends fl r1 st)" "st' \<in> set (ends fl r2 m)"
    by auto
  have l1: "length (snd m) \<le> length (snd st)" and l2: "length (snd st') \<le> length (snd m)"
    using ends_suffix[OF m(1)] ends_suffix[OF m(2)] by (auto dest: suffix_length_le)
  from Seq.prems(1) have "consuming r1 \<or> consuming r2" by simp
  then show ?case
  proof
    assume "consuming r1"
    from Seq.IH(1)[OF this m(1)] l2 show ?thesis by simp
  next
    assume "consuming r2"
    from Seq.IH(2)[OF this m(2)] l1 show ?thesis by simp
  qed
qed (auto dest: step_suffix)

lemma re_match_prefix:
  assumes "re_match fl r p s = Some v"
  shows "prefix v s" and "consuming r \<Longrightarrow> v \<noteq> []"
proof -
  from assms obtain st sts where e: "ends fl r (p, s) = st # sts"
    and v: "v = take (length s - length (snd st)) s"
    by (auto simp: re_match_def split: list.splits)
  show "prefix v s" unfolding v by (rule take_is_prefix)
  assume "consuming r"
  from ends_shorter[OF this, of st fl "(p, s)"] e v show "v \<noteq> []" by auto
qed

section \<open>The tokenizer of parserTask.py (class Lexer)\<close>

definition lexer_keywords :: "string list" where
  "lexer_keywords =
    [''auto'', ''break'', ''case'', ''char'', ''const'', ''continue'', ''default'',
     ''do'', ''double'', ''else'', ''enum'', ''extern'', ''float'', ''for'', ''goto'',
     ''if'', ''int'', ''long'', ''register'', ''return'', ''short'', ''signed'',
     ''sizeof'', ''static'', ''struct'', ''switch'', ''typedef'', ''union'',
     ''unsigned'', ''void'', ''volatile'', ''while'', ''class'', ''namespace'',
     ''using'', ''public'', ''private'', ''protected'', ''virtual'', ''bool'',
     ''true'', ''false'', ''new'', ''delete'', ''this'', ''try'', ''catch'', ''throw'']"

definition lexer_datatypes :: "string list" where
  "lexer_datatypes =
    [''int'', ''float'', ''double'', ''char'', ''void'', ''long'', ''short'',
     ''unsigned'', ''signed'', ''bool'', ''string'']"

text \<open>The set \<open>operators\<close> (here \<open>lexer_operators\<close>) is built by \<open>__init__\<close>; \<open>tokenize\<close> never reads it.\<close>

definition lexer_operators :: "string list" where
  "lexer_operators =
    [''+'', ''-'', ''*'', ''/'', ''%'', ''='', ''=='', ''!='', ''<'', ''>'', ''<='', ''>='',
     ''&&'', ''||'', ''!'', ''&'', ''|'', ''^'', ''~'', ''<<'', ''>>'', ''++'', ''--'',
     ''+='', ''-='', ''*='', ''/='', ''%='', ''&='', ''|='', ''^='', ''->'', ''.'', ''::'']"

text \<open>
  \<open>token_patterns\<close>, in the order of the source. The patterns are, one per entry below:
  \<^item> \<^verbatim>\<open>#\s*\w+.*\<close> (PREPROCESSOR)
  \<^item> \<^verbatim>\<open>//.*\<close> (COMMENT)
  \<^item> \<^verbatim>\<open>/\*[\s\S]*?\*/\<close> (COMMENT)
  \<^item> \<^verbatim>\<open>"(?:[^"\\]|\\.)*"\<close> (STRING)
  \<^item> \<^verbatim>\<open>'(?:[^'\\]|\\.)'\<close> (CHAR)
  \<^item> \<^verbatim>\<open>\b\d+\.?\d*([eE][+-]?\d+)?\b\<close> (NUMBER)
  \<^item> \<^verbatim>\<open>\b[a-zA-Z_][a-zA-Z0-9_]*\b\<close> (IDENTIFIER)
  \<^item> \<^verbatim>\<open>[+\-*/%=!<>&|^~]{1,2}\<close> (OPERATOR)
  \<^item> \<^verbatim>\<open>::\<close> and \<^verbatim>\<open>->\<close> (OPERATOR)
  \<^item> the eight delimiters, one character each
  \<^item> \<^verbatim>\<open>\s+\<close> (WHITESPACE)

  The double quote is the character \<open>0x22\<close>, the single quote \<open>0x27\<close> and the backslash
  \<open>0x5C\<close>.
\<close>

definition token_patterns :: "(regex \<times> TokenType) list" where
  "token_patterns =
    [(cat [Lit CHR ''#'', Star (Set [ClsS]), Plus (Set [ClsW]), Star Dot], PREPROCESSOR),
     (cat [Lit CHR ''/'', Lit CHR ''/'', Star Dot], COMMENT),
     (cat [Lit CHR ''/'', Lit CHR ''*'', LazyStar (Set [ClsS, ClsNotS]), Lit CHR ''*'',
           Lit CHR ''/''], COMMENT),
     (cat [Lit (CHR 0x22),
           Star (Alt (NSet [Ch (CHR 0x22), Ch (CHR 0x5C)]) (Seq (Lit (CHR 0x5C)) Dot)),
           Lit (CHR 0x22)], STRING),
     (cat [Lit (CHR 0x27),
           Alt (NSet [Ch (CHR 0x27), Ch (CHR 0x5C)]) (Seq (Lit (CHR 0x5C)) Dot),
           Lit (CHR 0x27)], CHAR_LITERAL),
     (cat [WordB, Plus (Set [ClsD]), Opt (Lit CHR ''.''), Star (Set [ClsD]),
           Opt (cat [Set [Ch CHR ''e'', Ch CHR ''E''], Opt (Set [Ch CHR ''+'', Ch CHR ''-'']),
                     Plus (Set [ClsD])]),
           WordB], NUMBER),
     (cat [WordB, Set [Rng CHR ''a'' CHR ''z'', Rng CHR ''A'' CHR ''Z'', Ch CHR ''_''],
           Star (Set [Rng CHR ''a'' CHR ''z'', Rng CHR ''A'' CHR ''Z'', Rng CHR ''0'' CHR ''9'',
                      Ch CHR ''_'']),
           WordB], IDENTIFIER),
     (Rep12 (Set (map Ch ''+-*/%=!<>&|^~'')), OPERATOR),
     (lit ''::'', OPERATOR),
     (lit ''->'', OPERATOR),
     (Lit CHR '';'', SEMICOLON),
     (Lit CHR '','', COMMA),
     (Lit CHR ''('', LPAREN),
     (Lit CHR '')'', RPAREN),
     (Lit CHR ''{'', LBRACE),
     (Lit CHR ''}'', RBRACE),
     (Lit CHR ''['', LBRACKET),
     (Lit CHR '']'', RBRACKET),
     (Plus (Set [ClsS]), WHITESPACE)]"

text \<open>
  The \<open>for pattern, token_type in self.token_patterns\<close> loop with its \<open>break\<close>: the first
  pattern that matches at the start of the slice \<open>line[col:]\<close>, with the matched text. The
  slice is a new string, so \<open>\b\<close> sees no character before it.
\<close>

fun match_patterns :: "(regex \<times> 'a) list \<Rightarrow> string \<Rightarrow> ('a \<times> string) option" where
  "match_patterns [] s = None"
| "match_patterns ((pattern, token_type) # ps) s =
     (case re_match [] pattern None s of
        Some v \<Rightarrow> Some (token_type, v)
      | None \<Rightarrow> match_patterns ps s)"

text \<open>"Classify keywords and datatypes".\<close>

definition classify :: "TokenType \<Rightarrow> string \<Rightarrow> TokenType" where
  "classify token_type v =
     (if token_type = IDENTIFIER \<and> (v \<in> set lexer_keywords \<or> v \<in> set lexer_datatypes)
      then KEYWORD else token_type)"

lemma match_patterns_prefix:
  "match_patterns ps s = Some (ty, v) \<Longrightarrow> prefix v s"
  by (induction ps s rule: match_patterns.induct)
     (auto split: option.splits dest: re_match_prefix(1))

lemma match_patterns_nonempty:
  "match_patterns ps s = Some (ty, v) \<Longrightarrow> list_all (\<lambda>p. consuming (fst p)) ps \<Longrightarrow> v \<noteq> []"
  by (induction ps s rule: match_patterns.induct)
     (auto split: option.splits dest: re_match_prefix(2))

lemma token_patterns_consuming: "list_all (\<lambda>p. consuming (fst p)) token_patterns"
  by (simp add: token_patterns_def Plus_def Rep12_def lit_def)

lemma token_patterns_advance:
  "match_patterns token_patterns s = Some (ty, v) \<Longrightarrow> 0 < length v \<and> length v \<le> length s"
  using match_patterns_nonempty[OF _ token_patterns_consuming, of s ty v]
    match_patterns_prefix[of token_patterns s ty v]
  by (auto dest: prefix_length_le)

lemma token_patterns_measure:
  assumes "col < length line" and "match_patterns token_patterns (drop col line) = Some (ty, v)"
  shows "length line - (col + length v) < length line - col"
  using token_patterns_advance[OF assms(2)] assms(1) by (cases v) auto

text \<open>
  The \<open>while col < len(line)\<close> loop for one line, with the list \<open>tokens\<close> passed along.
\<close>

function tokenize_line :: "nat \<Rightarrow> string \<Rightarrow> nat \<Rightarrow> Token list \<Rightarrow> py_error + Token list" where
  "tokenize_line line_num line col tokens =
     (if col < length line then
        (case match_patterns token_patterns (drop col line) of
           Some (token_type, v) \<Rightarrow>
             tokenize_line line_num line (col + length v)
               (if classify token_type v \<noteq> WHITESPACE
                then tokens @ [\<lparr>tok_type = classify token_type v, tok_value = v,
                                 tok_line = line_num, tok_col = col + 1\<rparr>]
                else tokens)
         | None \<Rightarrow>
             (case getitem line col of
                Inl e \<Rightarrow> Inl e
              | Inr c \<Rightarrow>
                  tokenize_line line_num line (col + 1)
                    (tokens @ [\<lparr>tok_type = UNKNOWN, tok_value = [c],
                                 tok_line = line_num, tok_col = col + 1\<rparr>])))
      else Inr tokens)"
  by pat_completeness auto
termination
  by (relation "measure (\<lambda>(line_num, line, col, tokens). length line - col)")
     (auto intro: token_patterns_measure)

declare tokenize_line.simps [simp del]

text \<open>\<open>code.split('\n')\<close>: the text between the newlines; one line more than newlines.\<close>

fun split_lines :: "string \<Rightarrow> string list" where
  "split_lines [] = [[]]"
| "split_lines (c # cs) =
     (if c = CHR 0x0A then [] # split_lines cs
      else (c # hd (split_lines cs)) # tl (split_lines cs))"

text \<open>The \<open>for line_num, line in enumerate(lines, 1)\<close> loop.\<close>

fun tokenize_lines :: "nat \<Rightarrow> string list \<Rightarrow> Token list \<Rightarrow> py_error + Token list" where
  "tokenize_lines line_num [] tokens = Inr tokens"
| "tokenize_lines line_num (line # lines) tokens =
     (case tokenize_line line_num line 0 tokens of
        Inl e \<Rightarrow> Inl e
      | Inr tokens' \<Rightarrow> tokenize_lines (line_num + 1) lines tokens')"

definition tokenize :: "string \<Rightarrow> py_error + Token list" where
  "tokenize code = tokenize_lines 1 (split_lines code) []"

section \<open>The tokenizer of scannerTask.py\<close>

text \<open>
  Its tokens have a string for their type (the name of the matching group) and a field
  \<open>column\<close>. The fields carry the prefix \<open>stok_\<close>.
\<close>

record SToken =
  stok_type :: string
  stok_value :: string
  stok_line :: nat
  stok_column :: int

text \<open>
  \<open>TOKEN_SPECIFICATIONS\<close>, in the order of the source:
  \<^item> Comments: \<^verbatim>\<open>//.*?$|/\*.*?\*/\<close>
  \<^item> Character_constants: \<^verbatim>\<open>'.'\<close>
  \<^item> Special_characters: \<^verbatim>\<open>[{}();]\<close>
  \<^item> Numeric_constants: \<^verbatim>\<open>\b\d+(\.\d+)?([eE][+-]?\d+)?\b\<close>
  \<^item> Operators: \<^verbatim>\<open>(\+\+|--|==|!=|<=|>=|<<=|>>=|\+=|-=|\*=|/=|%=|&=|\|=|\^=|<<|>>|->|&&|\|\||::|[+\-*/%=&|^~<>!]=?|[<>]=?|[+\-*/%=&|^~<>!])\<close>
  \<^item> Identifiers: \<^verbatim>\<open>[a-zA-Z_]\w*\<close>
  \<^item> Keywords: \<^verbatim>\<open>\b(if|else|...|true|false)\b\<close>
  \<^item> NEWLINE: \<^verbatim>\<open>\n\<close>
  \<^item> SKIP: \<^verbatim>\<open>[ \t]+\<close>
  \<^item> MISMATCH: \<^verbatim>\<open>.\<close>
\<close>

definition TOKEN_SPECIFICATIONS :: "(string \<times> regex) list" where
  "TOKEN_SPECIFICATIONS =
    [(''Comments'',
        Alt (cat [Lit CHR ''/'', Lit CHR ''/'', LazyStar Dot, Eol])
            (cat [Lit CHR ''/'', Lit CHR ''*'', LazyStar Dot, Lit CHR ''*'', Lit CHR ''/''])),
     (''Character_constants'', cat [Lit (CHR 0x27), Dot, Lit (CHR 0x27)]),
     (''Special_characters'', Set (map Ch ''{}();'')),
     (''Numeric_constants'',
        cat [WordB, Plus (Set [ClsD]), Opt (Seq (Lit CHR ''.'') (Plus (Set [ClsD]))),
             Opt (cat [Set [Ch CHR ''e'', Ch CHR ''E''], Opt (Set [Ch CHR ''+'', Ch CHR ''-'']),
                       Plus (Set [ClsD])]),
             WordB]),
     (''Operators'',
        alts (map lit [''++'', ''--'', ''=='', ''!='', ''<='', ''>='', ''<<='', ''>>='', ''+='',
                       ''-='', ''*='', ''/='', ''%='', ''&='', ''|='', ''^='', ''<<'', ''>>'',
                       ''->'', ''&&'', ''||'', ''::'']
              @ [Seq (Set (map Ch ''+-*/%=&|^~<>!'')) (Opt (Lit CHR ''='')),
                 Seq (Set (map Ch ''<>'')) (Opt (Lit CHR ''='')),
                 Set (map Ch ''+-*/%=&|^~<>!'')])),
     (''Identifiers'',
        Seq (Set [Rng CHR ''a'' CHR ''z'', Rng CHR ''A'' CHR ''Z'', Ch CHR ''_''])
            (Star (Set [ClsW]))),
     (''Keywords'',
        cat [WordB,
             alts (map lit [''if'', ''else'', ''switch'', ''case'', ''default'', ''while'', ''for'',
                            ''do'', ''break'', ''continue'', ''goto'', ''int'', ''short'', ''long'',
                            ''float'', ''double'', ''void'', ''bool'', ''char'', ''string'',
                            ''signed'', ''unsigned'', ''auto'', ''const'', ''static'', ''new'',
                            ''delete'', ''using'', ''namespace'', ''try'', ''throw'', ''catch'',
                            ''class'', ''struct'', ''union'', ''public'', ''private'',
                            ''protected'', ''friend'', ''this'', ''virtual'', ''return'', ''true'',
                            ''false'']),
             WordB]),
     (''NEWLINE'', Lit (CHR 0x0A)),
     (''SKIP'', Plus (Set [Ch CHR '' '', Ch (CHR 0x09)])),
     (''MISMATCH'', Dot)]"

text \<open>
  \<open>tok_regex\<close> joins the specifications as named groups with \<open>|\<close>, and is compiled with
  \<open>re.MULTILINE | re.DOTALL\<close>. Nothing follows the alternation, so a match is the first
  match of the first group that matches at all; \<open>lastgroup\<close> is the name of that group and
  \<open>match.group(type)\<close> its text.
\<close>

fun match_groups ::
  "re_flag list \<Rightarrow> (string \<times> regex) list \<Rightarrow> char option \<Rightarrow> string \<Rightarrow> (string \<times> string) option" where
  "match_groups fl [] p s = None"
| "match_groups fl ((name, pattern) # specs) p s =
     (case re_match fl pattern p s of
        Some v \<Rightarrow> Some (name, v)
      | None \<Rightarrow> match_groups fl specs p s)"

text \<open>
  \<open>get_token(code, pos)\<close>: the match starts at \<open>pos\<close> (at the end of the text when \<open>pos\<close> is
  beyond it) in the whole text, so \<open>\b\<close> sees the character before \<open>pos\<close>.
\<close>

definition get_token :: "string \<Rightarrow> nat \<Rightarrow> (string \<times> string) option" where
  "get_token code pos =
     (let pos' = min pos (length code)
      in match_groups [MULTILINE, DOTALL] TOKEN_SPECIFICATIONS
           (if pos' = 0 then None else Some (code ! (pos' - 1))) (drop pos' code))"

lemma match_groups_prefix:
  "match_groups fl specs p s = Some (name, v) \<Longrightarrow> prefix v s"
  by (induction fl specs p s rule: match_groups.induct)
     (auto split: option.splits dest: re_match_prefix(1))

lemma match_groups_nonempty:
  "match_groups fl specs p s = Some (name, v) \<Longrightarrow> list_all (\<lambda>g. consuming (snd g)) specs
     \<Longrightarrow> v \<noteq> []"
  by (induction fl specs p s rule: match_groups.induct)
     (auto split: option.splits dest: re_match_prefix(2))

lemma TOKEN_SPECIFICATIONS_consuming: "list_all (\<lambda>g. consuming (snd g)) TOKEN_SPECIFICATIONS"
  by (simp add: TOKEN_SPECIFICATIONS_def Plus_def lit_def)

lemma get_token_advance:
  assumes "get_token code pos = Some (name, v)"
  shows "v \<noteq> []" and "pos + length v \<le> length code" and "prefix v (drop pos code)"
proof -
  let ?pos = "min pos (length code)"
  from assms have m: "match_groups [MULTILINE, DOTALL] TOKEN_SPECIFICATIONS
      (if ?pos = 0 then None else Some (code ! (?pos - 1))) (drop ?pos code) = Some (name, v)"
    by (simp add: get_token_def Let_def)
  from match_groups_nonempty[OF m TOKEN_SPECIFICATIONS_consuming] show ne: "v \<noteq> []" .
  from match_groups_prefix[OF m] have pr: "prefix v (drop ?pos code)" .
  then have "length v \<le> length code - ?pos" by (auto dest: prefix_length_le)
  with ne have "pos < length code" by (cases v) (auto simp: min_def split: if_splits)
  then have "?pos = pos" by simp
  with pr show "prefix v (drop pos code)" by simp
  then show "pos + length v \<le> length code"
    using \<open>pos < length code\<close> by (auto dest: prefix_length_le)
qed

text \<open>
  The \<open>while match is not None\<close> loop. \<open>match.start()\<close> is \<open>pos\<close> and \<open>match.end()\<close> is
  \<open>pos + len(value)\<close>. The lines that \<open>print\<close> writes are kept as the pairs of the
  character and the line number that the message shows.
\<close>

function scan_loop ::
  "string \<Rightarrow> nat \<Rightarrow> nat \<Rightarrow> nat \<Rightarrow> SToken list \<Rightarrow> (string \<times> nat) list
     \<Rightarrow> SToken list \<times> (string \<times> nat) list" where
  "scan_loop code pos line_num line_start tokens printed =
     (case get_token code pos of
        None \<Rightarrow> (tokens, printed)
      | Some (ty, v) \<Rightarrow>
          if ty = ''NEWLINE'' then
            scan_loop code (pos + length v) (line_num + 1) (pos + length v) tokens printed
          else if ty = ''SKIP'' then
            scan_loop code (pos + length v) line_num line_start tokens printed
          else if ty = ''MISMATCH'' then
            scan_loop code (pos + length v) line_num line_start tokens
              (printed @ [(v, line_num)])
          else
            scan_loop code (pos + length v) line_num line_start
              (tokens @ [\<lparr>stok_type = ty, stok_value = v, stok_line = line_num,
                           stok_column = int pos - int line_start\<rparr>])
              printed)"
  by pat_completeness auto
termination
proof (relation "measure (\<lambda>(code, pos, line_num, line_start, tokens, printed). length code - pos)",
    goal_cases)
  case 1
  show ?case by simp
next
  case (2 code pos line_num line_start tokens printed x ty v)
  with get_token_advance[of code pos ty v] show ?case by (cases v) auto
next
  case (3 code pos line_num line_start tokens printed x ty v)
  with get_token_advance[of code pos ty v] show ?case by (cases v) auto
next
  case (4 code pos line_num line_start tokens printed x ty v)
  with get_token_advance[of code pos ty v] show ?case by (cases v) auto
next
  case (5 code pos line_num line_start tokens printed x ty v)
  with get_token_advance[of code pos ty v] show ?case by (cases v) auto
qed

declare scan_loop.simps [simp del]

text \<open>\<open>tokenize(code)\<close> of scannerTask.py: the tokens, and what was printed.\<close>

definition scanner_tokenize :: "string \<Rightarrow> SToken list \<times> (string \<times> nat) list" where
  "scanner_tokenize code = scan_loop code 0 1 0 [] []"

section \<open>Tokenizing, then validating\<close>

text \<open>
  What \<open>main\<close> of parserTask.py does with the text it has read: \<open>lexer.tokenize(code)\<close>,
  then \<open>Parser(tokens).parse()\<close>.
\<close>

definition validate_source :: "string \<Rightarrow> py_error + (bool \<times> string list)" where
  "validate_source code =
     (case tokenize code of
        Inl e \<Rightarrow> Inl e
      | Inr tokens \<Rightarrow> validate tokens)"

(*SPECDEFS*)
section \<open>The passes of the validator, stated on lists\<close>

definition unknown_diags :: "Token list \<Rightarrow> string list" where
  "unknown_diags ts = map unknown_msg (filter (\<lambda>t. tok_type t = UNKNOWN) ts)"

fun expected_closer :: "TokenType \<Rightarrow> TokenType option" where
  "expected_closer LPAREN = Some RPAREN"
| "expected_closer LBRACE = Some RBRACE"
| "expected_closer LBRACKET = Some RBRACKET"
| "expected_closer other = None"

definition is_opening :: "TokenType \<Rightarrow> bool" where
  "is_opening ty = (ty = LPAREN \<or> ty = LBRACE \<or> ty = LBRACKET)"

definition is_closing :: "TokenType \<Rightarrow> bool" where
  "is_closing ty = (ty = RPAREN \<or> ty = RBRACE \<or> ty = RBRACKET)"

fun balance_scan :: "Token list \<Rightarrow> Token list \<Rightarrow> string list" where
  "balance_scan [] opened = map unclosed_msg (rev opened)"
| "balance_scan (t # ts) opened =
     (if is_opening (tok_type t) then balance_scan ts (t # opened)
      else if is_closing (tok_type t) then
        (case opened of
           [] \<Rightarrow> unmatched_msg t # balance_scan ts []
         | open_token # below \<Rightarrow>
             (if expected_closer (tok_type open_token) = Some (tok_type t) then []
              else [mismatched_msg open_token t]) @ balance_scan ts below)
      else balance_scan ts opened)"

definition stop_token :: "Token list \<Rightarrow> Token option" where
  "stop_token ts = find (\<lambda>t. tok_type t = SEMICOLON \<or> tok_type t = LBRACE \<or> tok_type t = RBRACE) ts"

definition is_trigger :: "Token \<Rightarrow> bool" where
  "is_trigger t = (tok_type t = KEYWORD \<and> (tok_value t = ''return'' \<or> tok_value t = ''break'' \<or> tok_value t = ''continue''))"

fun statement_diags_claimed :: "Token list \<Rightarrow> string list" where
  "statement_diags_claimed [] = []"
| "statement_diags_claimed (t # ts) =
     (if is_trigger t \<and> (case stop_token ts of None \<Rightarrow> True | Some s \<Rightarrow> tok_type s \<noteq> SEMICOLON)
      then [missing_semicolon_msg t] else []) @ statement_diags_claimed ts"

fun statement_diags :: "Token list \<Rightarrow> string list" where
  "statement_diags [] = []"
| "statement_diags (t # ts) =
     (if is_trigger t \<and> (case stop_token ts of None \<Rightarrow> False | Some s \<Rightarrow> tok_type s = RBRACE)
      then [missing_semicolon_msg t] else []) @ statement_diags ts"

definition stack_ok :: "(TokenType \<times> Token) list \<Rightarrow> bool" where
  "stack_ok stack = list_all (\<lambda>e. fst e = tok_type (snd e) \<and> is_opening (fst e)) stack"

definition without_comments :: "Token list \<Rightarrow> Token list" where
  "without_comments toks = filter (\<lambda>t. tok_type t \<noteq> COMMENT) toks"

(*LEMMAS*)
section \<open>The loops of the validator compute the list functions\<close>

lemma unknown_loop_append: "unknown_loop ts errs = errs @ unknown_diags ts"
  by (induction ts arbitrary: errs) (simp_all add: unknown_diags_def)

lemma unclosed_loop_append: "unclosed_loop stack errs = errs @ map (\<lambda>e. unclosed_msg (snd e)) stack"
  by (induction stack errs rule: unclosed_loop.induct) simp_all

lemma in_openers: "ty \<in> fst ` set pairs \<longleftrightarrow> is_opening ty"
  by (auto simp: pairs_def is_opening_def)

lemma in_closers: "ty \<in> snd ` set pairs \<longleftrightarrow> is_closing ty"
  by (auto simp: pairs_def is_closing_def)

lemma map_of_pairs: "map_of pairs ty = expected_closer ty"
  by (cases ty) (simp_all add: pairs_def)

lemma opening_closer: "is_opening ty \<Longrightarrow> \<exists>c. expected_closer ty = Some c"
  by (auto simp: is_opening_def)

lemma delimiter_loop_spec:
  "stack_ok stack \<Longrightarrow>
   \<exists>stack' errs'. delimiter_loop ts stack errs = Inr (stack', errs')
      \<and> unclosed_loop stack' errs' = errs @ balance_scan ts (rev (map snd stack))"
proof (induction ts arbitrary: stack errs)
  case Nil
  then show ?case by (simp add: unclosed_loop_append rev_map)
next
  case (Cons t ts)
  show ?case
  proof (cases "is_opening (tok_type t)")
    case True
    have ok: "stack_ok (stack @ [(tok_type t, t)])"
      using Cons.prems True by (simp add: stack_ok_def)
    from Cons.IH[OF ok, of errs] True show ?thesis
      by (simp add: in_openers)
  next
    case no: False
    show ?thesis
    proof (cases "is_closing (tok_type t)")
      case False
      with no Cons.IH[OF Cons.prems, of errs] show ?thesis
        by (simp add: in_openers in_closers)
    next
      case cl: True
      show ?thesis
      proof (cases "stack = []")
        case True
        with no cl Cons.IH[of "[]" "errs @ [unmatched_msg t]"] show ?thesis
          by (simp add: in_openers in_closers stack_ok_def)
      next
        case False
        then obtain bl e where st: "stack = bl @ [e]"
          by (metis append_butlast_last_id)
        have okb: "stack_ok bl" and e1: "fst e = tok_type (snd e)" and e2: "is_opening (fst e)"
          using Cons.prems st by (auto simp: stack_ok_def)
        from opening_closer[OF e2] obtain c where c: "expected_closer (fst e) = Some c" by blast
        show ?thesis
        proof (cases "c = tok_type t")
          case True
          with no cl st c e1 Cons.IH[OF okb, of errs] show ?thesis
            by (simp add: in_openers in_closers map_of_pairs)
        next
          case False
          with no cl st c e1 Cons.IH[OF okb, of "errs @ [mismatched_msg (snd e) t]"] show ?thesis
            by (simp add: in_openers in_closers map_of_pairs)
        qed
      qed
    qed
  qed
qed

lemma check_balanced_delimiters_spec:
  "check_balanced_delimiters p =
     Inr (p\<lparr>parser_errors := parser_errors p @ balance_scan (parser_tokens p) []\<rparr>)"
proof -
  have "stack_ok []" by (simp add: stack_ok_def)
  from delimiter_loop_spec[OF this, of "parser_tokens p" "parser_errors p"]
  show ?thesis by (auto simp: check_balanced_delimiters_def)
qed

lemma scan_forward_end: "length ts \<le> j \<Longrightarrow> scan_forward ts j = Inr (j, False)"
  by (subst scan_forward.simps) simp

lemma statement_loop_end: "length ts \<le> i \<Longrightarrow> statement_loop ts i errs = Inr errs"
  by (subst statement_loop.simps) simp

lemma scan_forward_step:
  "j < length ts \<Longrightarrow>
   scan_forward ts j =
     (if tok_type (ts ! j) = SEMICOLON then Inr (j, True)
      else if tok_type (ts ! j) = LBRACE \<or> tok_type (ts ! j) = RBRACE then Inr (j, False)
      else scan_forward ts (Suc j))"
  by (subst scan_forward.simps) (simp add: getitem_def)

lemma scan_forward_spec:
  "j \<le> length ts \<Longrightarrow>
   (case stop_token (drop j ts) of
      None \<Rightarrow> scan_forward ts j = Inr (length ts, False)
    | Some s \<Rightarrow> \<exists>k. k < length ts \<and> ts ! k = s
                 \<and> scan_forward ts j = Inr (k, tok_type s = SEMICOLON))"
proof (induction "length ts - j" arbitrary: j)
  case 0
  then show ?case by (simp add: stop_token_def scan_forward_end)
next
  case (Suc n)
  then have lt: "j < length ts" by simp
  then have dr: "drop j ts = ts ! j # drop (Suc j) ts"
    by (simp add: Cons_nth_drop_Suc)
  show ?case
  proof (cases "tok_type (ts ! j) = SEMICOLON \<or> tok_type (ts ! j) = LBRACE \<or> tok_type (ts ! j) = RBRACE")
    case True
    have "scan_forward ts j = Inr (j, tok_type (ts ! j) = SEMICOLON)"
      using lt True by (auto simp: scan_forward_step)
    with lt dr True show ?thesis
      by (auto simp: stop_token_def)
  next
    case False
    have "n = length ts - Suc j" "Suc j \<le> length ts" using Suc.hyps(2) lt by simp_all
    from Suc.hyps(1)[OF this]
    have IH: "case stop_token (drop (Suc j) ts) of
          None \<Rightarrow> scan_forward ts (Suc j) = Inr (length ts, False)
        | Some s \<Rightarrow> \<exists>k. k < length ts \<and> ts ! k = s
                 \<and> scan_forward ts (Suc j) = Inr (k, tok_type s = SEMICOLON)" .
    have st: "stop_token (drop j ts) = stop_token (drop (Suc j) ts)"
      using False dr by (simp add: stop_token_def)
    have sf: "scan_forward ts j = scan_forward ts (Suc j)"
      using lt False by (simp add: scan_forward_step)
    from IH show ?thesis unfolding st sf .
  qed
qed

lemma statement_loop_step:
  "i < length ts \<Longrightarrow>
   statement_loop ts i errs =
     (if is_trigger (ts ! i) then
        (case scan_forward ts (Suc i) of
           Inl e \<Rightarrow> Inl e
         | Inr (j, found_semicolon) \<Rightarrow>
             if \<not> found_semicolon \<and> j < length ts \<and> tok_type (ts ! j) \<noteq> LBRACE
             then statement_loop ts (Suc i) (errs @ [missing_semicolon_msg (ts ! i)])
             else statement_loop ts (Suc i) errs)
      else statement_loop ts (Suc i) errs)"
  by (subst statement_loop.simps)
     (auto simp: getitem_def is_trigger_def split: sum.splits prod.splits)

lemma statement_loop_spec:
  "i \<le> length ts \<Longrightarrow> statement_loop ts i errs = Inr (errs @ statement_diags (drop i ts))"
proof (induction "length ts - i" arbitrary: i errs)
  case 0
  then show ?case by (simp add: statement_loop_end)
next
  case (Suc n)
  then have lt: "i < length ts" by simp
  then have dr: "drop i ts = ts ! i # drop (Suc i) ts"
    by (simp add: Cons_nth_drop_Suc)
  have "n = length ts - Suc i" "Suc i \<le> length ts" using Suc.hyps(2) lt by simp_all
  note IH = Suc.hyps(1)[OF this]
  show ?case
  proof (cases "is_trigger (ts ! i)")
    case False
    with lt dr IH[of errs] show ?thesis by (simp add: statement_loop_step)
  next
    case trig: True
    show ?thesis
    proof (cases "stop_token (drop (Suc i) ts)")
      case None
      with scan_forward_spec[OF \<open>Suc i \<le> length ts\<close>]
      have sf: "scan_forward ts (Suc i) = Inr (length ts, False)" by simp
      with lt dr trig None IH[of errs] show ?thesis by (simp add: statement_loop_step)
    next
      case (Some s)
      with scan_forward_spec[OF \<open>Suc i \<le> length ts\<close>] obtain k where k: "k < length ts" "ts ! k = s"
        and sf: "scan_forward ts (Suc i) = Inr (k, tok_type s = SEMICOLON)"
        by auto
      have ss: "tok_type s = SEMICOLON \<or> tok_type s = LBRACE \<or> tok_type s = RBRACE"
        using Some unfolding stop_token_def by (auto simp: find_Some_iff)
      show ?thesis
      proof (cases "tok_type s = RBRACE")
        case True
        with lt dr trig Some sf k IH[of "errs @ [missing_semicolon_msg (ts ! i)]"] show ?thesis
          by (simp add: statement_loop_step)
      next
        case False
        with ss lt dr trig Some sf k IH[of errs] show ?thesis
          by (auto simp: statement_loop_step)
      qed
    qed
  qed
qed

lemma check_statement_structure_spec:
  "check_statement_structure p =
     Inr (p\<lparr>parser_errors := parser_errors p @ statement_diags (parser_tokens p)\<rparr>)"
  by (simp add: check_statement_structure_def statement_loop_spec)

lemma parse_spec:
  "parse p =
     (let ds = unknown_diags (parser_tokens p) @ balance_scan (parser_tokens p) []
                 @ statement_diags (parser_tokens p)
      in Inr (p\<lparr>parser_errors := ds\<rparr>, ds = []))"
  by (simp add: parse_def Let_def unknown_loop_append check_balanced_delimiters_spec
      check_statement_structure_spec)

lemma validate_spec:
  "validate toks =
     (let ts = without_comments toks;
          ds = unknown_diags ts @ balance_scan ts [] @ statement_diags ts
      in Inr (ds = [], ds))"
  by (simp add: validate_def parse_spec Parser_init_def Let_def without_comments_def)

section \<open>Characters that no pattern of the Lexer matches\<close>

lemma dot_is_unmatched: "match_patterns token_patterns (CHR ''.'' # rest) = None"
  by (simp add: token_patterns_def re_match_def Plus_def Rep12_def lit_def at_boundary_def
      is_word_def is_alpha_def is_digit_def is_space_def)

lemma colon_is_unmatched:
  "rest = [] \<or> hd rest \<noteq> CHR '':'' \<Longrightarrow> match_patterns token_patterns (CHR '':'' # rest) = None"
  by (cases rest)
     (simp_all add: token_patterns_def re_match_def Plus_def Rep12_def lit_def at_boundary_def
      is_word_def is_alpha_def is_digit_def is_space_def)

lemma tokenize_line_unmatched:
  assumes "col < length line" and "match_patterns token_patterns (drop col line) = None"
  shows "tokenize_line line_num line col tokens =
     tokenize_line line_num line (col + 1)
       (tokens @ [\<lparr>tok_type = UNKNOWN, tok_value = [line ! col], tok_line = line_num,
                    tok_col = col + 1\<rparr>])"
  using assms by (subst tokenize_line.simps) (simp add: getitem_def)

lemma unknown_token_fails_validation:
  assumes "t \<in> set toks" and "tok_type t = UNKNOWN"
  shows "\<exists>ds. validate toks = Inr (False, ds) \<and> unknown_msg t \<in> set ds"
proof -
  from assms have "t \<in> set (without_comments toks)" by (simp add: without_comments_def)
  with assms(2) have "unknown_msg t \<in> set (unknown_diags (without_comments toks))"
    by (auto simp: unknown_diags_def)
  then show ?thesis
    by (auto simp: validate_spec Let_def)
qed

(*CLAIMS*)
section \<open>Properties of the validator\<close>

text \<open>
  C1, as amended. The statement-termination scan adds one "Missing semicolon" message for
  a \<open>return\<close>, \<open>break\<close> or \<open>continue\<close> keyword exactly when the first semicolon-or-brace
  token after it is a closing brace (\<open>statement_diags\<close>). It adds none when that token is a
  semicolon or an opening brace, nor when the token sequence ends before any of the three
  is met. The pass raises no exception and only appends to the errors.
\<close>

theorem statement_scan_reports_closing_brace:
  "check_statement_structure p =
     Inr (p\<lparr>parser_errors := parser_errors p @ statement_diags (parser_tokens p)\<rparr>)"
  by (rule check_statement_structure_spec)

theorem statement_scan_reports_closing_brace_witness:
  "check_statement_structure
     (Parser_init
        [\<lparr>tok_type = KEYWORD, tok_value = ''return'', tok_line = 1, tok_col = 10\<rparr>,
         \<lparr>tok_type = RBRACE, tok_value = ''}'', tok_line = 1, tok_col = 17\<rparr>,
         \<lparr>tok_type = KEYWORD, tok_value = ''break'', tok_line = 2, tok_col = 1\<rparr>,
         \<lparr>tok_type = SEMICOLON, tok_value = '';'', tok_line = 2, tok_col = 6\<rparr>,
         \<lparr>tok_type = KEYWORD, tok_value = ''continue'', tok_line = 3, tok_col = 1\<rparr>,
         \<lparr>tok_type = LBRACE, tok_value = ''{'', tok_line = 3, tok_col = 10\<rparr>,
         \<lparr>tok_type = KEYWORD, tok_value = ''return'', tok_line = 4, tok_col = 1\<rparr>])
   = Inr (Parser_init
        [\<lparr>tok_type = KEYWORD, tok_value = ''return'', tok_line = 1, tok_col = 10\<rparr>,
         \<lparr>tok_type = RBRACE, tok_value = ''}'', tok_line = 1, tok_col = 17\<rparr>,
         \<lparr>tok_type = KEYWORD, tok_value = ''break'', tok_line = 2, tok_col = 1\<rparr>,
         \<lparr>tok_type = SEMICOLON, tok_value = '';'', tok_line = 2, tok_col = 6\<rparr>,
         \<lparr>tok_type = KEYWORD, tok_value = ''continue'', tok_line = 3, tok_col = 1\<rparr>,
         \<lparr>tok_type = LBRACE, tok_value = ''{'', tok_line = 3, tok_col = 10\<rparr>,
         \<lparr>tok_type = KEYWORD, tok_value = ''return'', tok_line = 4, tok_col = 1\<rparr>]
        \<lparr>parser_errors := [''Missing semicolon after '' @ [CHR 0x27] @ ''return'' @ [CHR 0x27]
                               @ '' statement at line 1'']\<rparr>)"
  unfolding statement_scan_reports_closing_brace
  by (simp add: Parser_init_def stop_token_def is_trigger_def missing_semicolon_msg_def
      quoted_def str_nat.simps digit_char_def)

text \<open>
  C1 as the claim states it asks for a message whenever the forward scan stops at anything
  but a semicolon (\<open>statement_diags_claimed\<close>). The code gives none for a \<open>return\<close> that is
  the last token, and none for a \<open>return\<close> followed by an opening brace.
\<close>

theorem statement_scan_counterexample:
  "statement_loop [\<lparr>tok_type = KEYWORD, tok_value = ''return'', tok_line = 1, tok_col = 1\<rparr>] 0 []
     = Inr []
   \<and> statement_diags_claimed
        [\<lparr>tok_type = KEYWORD, tok_value = ''return'', tok_line = 1, tok_col = 1\<rparr>]
     = [missing_semicolon_msg \<lparr>tok_type = KEYWORD, tok_value = ''return'', tok_line = 1, tok_col = 1\<rparr>]
   \<and> statement_loop
        [\<lparr>tok_type = KEYWORD, tok_value = ''return'', tok_line = 1, tok_col = 1\<rparr>,
         \<lparr>tok_type = LBRACE, tok_value = ''{'', tok_line = 1, tok_col = 8\<rparr>] 0 []
     = Inr []
   \<and> statement_diags_claimed
        [\<lparr>tok_type = KEYWORD, tok_value = ''return'', tok_line = 1, tok_col = 1\<rparr>,
         \<lparr>tok_type = LBRACE, tok_value = ''{'', tok_line = 1, tok_col = 8\<rparr>]
     = [missing_semicolon_msg \<lparr>tok_type = KEYWORD, tok_value = ''return'', tok_line = 1, tok_col = 1\<rparr>]"
  by (simp add: statement_loop.simps scan_forward.simps getitem_def stop_token_def is_trigger_def)

text \<open>
  C5. \<open>check_balanced_delimiters\<close> raises no exception and appends to the errors exactly
  the messages of the one-pass stack scan \<open>balance_scan\<close>: an opening delimiter is pushed;
  a closing delimiter on an empty stack gives "Unmatched closing delimiter"; a closing
  delimiter pops the latest opener and gives "Mismatched delimiters", with both tokens,
  when the opener's expected closer is another kind; after the scan, every opener left
  gives "Unclosed delimiter", the oldest first.
\<close>

theorem balance_scan_is_stack_algorithm:
  "check_balanced_delimiters p =
     Inr (p\<lparr>parser_errors := parser_errors p @ balance_scan (parser_tokens p) []\<rparr>)"
  by (rule check_balanced_delimiters_spec)

theorem balance_scan_is_stack_algorithm_witness:
  "check_balanced_delimiters
     (Parser_init
        [\<lparr>tok_type = RBRACKET, tok_value = '']'', tok_line = 1, tok_col = 1\<rparr>,
         \<lparr>tok_type = LBRACE, tok_value = ''{'', tok_line = 2, tok_col = 1\<rparr>,
         \<lparr>tok_type = LPAREN, tok_value = ''('', tok_line = 3, tok_col = 1\<rparr>,
         \<lparr>tok_type = LPAREN, tok_value = ''('', tok_line = 4, tok_col = 1\<rparr>,
         \<lparr>tok_type = RPAREN, tok_value = '')'', tok_line = 5, tok_col = 1\<rparr>,
         \<lparr>tok_type = LBRACKET, tok_value = ''['', tok_line = 6, tok_col = 1\<rparr>,
         \<lparr>tok_type = RBRACE, tok_value = ''}'', tok_line = 7, tok_col = 1\<rparr>])
   = Inr (Parser_init
        [\<lparr>tok_type = RBRACKET, tok_value = '']'', tok_line = 1, tok_col = 1\<rparr>,
         \<lparr>tok_type = LBRACE, tok_value = ''{'', tok_line = 2, tok_col = 1\<rparr>,
         \<lparr>tok_type = LPAREN, tok_value = ''('', tok_line = 3, tok_col = 1\<rparr>,
         \<lparr>tok_type = LPAREN, tok_value = ''('', tok_line = 4, tok_col = 1\<rparr>,
         \<lparr>tok_type = RPAREN, tok_value = '')'', tok_line = 5, tok_col = 1\<rparr>,
         \<lparr>tok_type = LBRACKET, tok_value = ''['', tok_line = 6, tok_col = 1\<rparr>,
         \<lparr>tok_type = RBRACE, tok_value = ''}'', tok_line = 7, tok_col = 1\<rparr>]
        \<lparr>parser_errors :=
           [''Unmatched closing delimiter '' @ [CHR 0x27] @ '']'' @ [CHR 0x27] @ '' at line 1'',
            ''Mismatched delimiters: '' @ [CHR 0x27] @ ''['' @ [CHR 0x27] @ '' at line 6 and ''
              @ [CHR 0x27] @ ''}'' @ [CHR 0x27] @ '' at line 7'',
            ''Unclosed delimiter '' @ [CHR 0x27] @ ''{'' @ [CHR 0x27] @ '' at line 2'',
            ''Unclosed delimiter '' @ [CHR 0x27] @ ''('' @ [CHR 0x27] @ '' at line 3'']\<rparr>)"
  unfolding balance_scan_is_stack_algorithm
  by (simp add: Parser_init_def is_opening_def is_closing_def unmatched_msg_def
      mismatched_msg_def unclosed_msg_def quoted_def str_nat.simps digit_char_def)

text \<open>
  C6. \<open>validate\<close> returns for every token sequence (no exception). Its diagnostics are those
  of the unrecognized-token scan, then those of the delimiter balance scan, then those of
  the statement-termination scan, each computed on the tokens without the comments,
  whatever the other passes found; the verdict is true exactly when this list is empty.
\<close>

theorem validate_total_and_ordered:
  "validate toks =
     (let ts = without_comments toks;
          ds = unknown_diags ts @ balance_scan ts [] @ statement_diags ts
      in Inr (ds = [], ds))"
  by (rule validate_spec)

theorem validate_total_and_ordered_witness:
  "validate
     [\<lparr>tok_type = KEYWORD, tok_value = ''return'', tok_line = 1, tok_col = 1\<rparr>,
      \<lparr>tok_type = COMMENT, tok_value = ''// c'', tok_line = 1, tok_col = 8\<rparr>,
      \<lparr>tok_type = RBRACE, tok_value = ''}'', tok_line = 2, tok_col = 1\<rparr>,
      \<lparr>tok_type = UNKNOWN, tok_value = ''@'', tok_line = 2, tok_col = 3\<rparr>]
   = Inr (False,
       [''Unknown token '' @ [CHR 0x27] @ ''@'' @ [CHR 0x27] @ '' at line 2, col 3'',
        ''Unmatched closing delimiter '' @ [CHR 0x27] @ ''}'' @ [CHR 0x27] @ '' at line 2'',
        ''Missing semicolon after '' @ [CHR 0x27] @ ''return'' @ [CHR 0x27]
          @ '' statement at line 1''])
   \<and> validate
     [\<lparr>tok_type = KEYWORD, tok_value = ''return'', tok_line = 1, tok_col = 1\<rparr>,
      \<lparr>tok_type = SEMICOLON, tok_value = '';'', tok_line = 1, tok_col = 7\<rparr>]
   = Inr (True, [])"
  unfolding validate_total_and_ordered
  by (simp add: without_comments_def unknown_diags_def is_opening_def is_closing_def
      stop_token_def is_trigger_def unknown_msg_def unmatched_msg_def missing_semicolon_msg_def
      quoted_def str_nat.simps digit_char_def)

text \<open>
  C10. The result of \<open>validate\<close> on a token sequence is its result on the sequence without
  the comment tokens; so a comment token inserted anywhere, or deleted, changes nothing.
\<close>

theorem validate_ignores_comments:
  "validate toks = validate (without_comments toks)
   \<and> (tok_type c = COMMENT \<longrightarrow> validate (xs @ c # ys) = validate (xs @ ys))"
  by (simp add: validate_def Parser_init_def without_comments_def)

theorem validate_ignores_comments_witness:
  "validate
     [\<lparr>tok_type = LPAREN, tok_value = ''('', tok_line = 1, tok_col = 1\<rparr>,
      \<lparr>tok_type = COMMENT, tok_value = ''/* ) */'', tok_line = 1, tok_col = 2\<rparr>]
   = validate [\<lparr>tok_type = LPAREN, tok_value = ''('', tok_line = 1, tok_col = 1\<rparr>]
   \<and> validate [\<lparr>tok_type = LPAREN, tok_value = ''('', tok_line = 1, tok_col = 1\<rparr>]
     = Inr (False, [''Unclosed delimiter '' @ [CHR 0x27] @ ''('' @ [CHR 0x27] @ '' at line 1''])"
proof -
  have "tok_type \<lparr>tok_type = COMMENT, tok_value = ''/* ) */'', tok_line = 1, tok_col = 2\<rparr> = COMMENT"
    by simp
  with validate_ignores_comments
    [of _ "\<lparr>tok_type = COMMENT, tok_value = ''/* ) */'', tok_line = 1, tok_col = 2\<rparr>"
        "[\<lparr>tok_type = LPAREN, tok_value = ''('', tok_line = 1, tok_col = 1\<rparr>]" "[]"]
  have "validate
     [\<lparr>tok_type = LPAREN, tok_value = ''('', tok_line = 1, tok_col = 1\<rparr>,
      \<lparr>tok_type = COMMENT, tok_value = ''/* ) */'', tok_line = 1, tok_col = 2\<rparr>]
   = validate [\<lparr>tok_type = LPAREN, tok_value = ''('', tok_line = 1, tok_col = 1\<rparr>]"
    by simp
  moreover have "validate [\<lparr>tok_type = LPAREN, tok_value = ''('', tok_line = 1, tok_col = 1\<rparr>]
     = Inr (False, [''Unclosed delimiter '' @ [CHR 0x27] @ ''('' @ [CHR 0x27] @ '' at line 1''])"
    by (simp add: validate_spec without_comments_def unknown_diags_def is_opening_def
        is_closing_def stop_token_def is_trigger_def unclosed_msg_def quoted_def str_nat.simps
        digit_char_def)
  ultimately show ?thesis by simp
qed


section \<open>Properties of the tokenizers on given inputs\<close>

text \<open>
  C2 (the code does not do what the claim says). The Lexer splits the text at the newlines
  before it matches anything, so the block comment pattern never sees an opener and a
  closer that are on different lines: for the two lines \<open>/*a\<close> and \<open>b*/\<close> it gives four
  tokens, two operators and two identifiers, and no comment token. The tokenizer of
  scannerTask.py makes one Comments token of the same text, but it counts lines only at
  the newlines outside tokens: the identifier \<open>x\<close> on the second line is given line 1.
\<close>

theorem block_comment_across_lines:
  "tokenize (''/*a'' @ [CHR 0x0A] @ ''b*/'') =
     Inr [\<lparr>tok_type = OPERATOR, tok_value = ''/*'', tok_line = 1, tok_col = 1\<rparr>,
          \<lparr>tok_type = IDENTIFIER, tok_value = ''a'', tok_line = 1, tok_col = 3\<rparr>,
          \<lparr>tok_type = IDENTIFIER, tok_value = ''b'', tok_line = 2, tok_col = 1\<rparr>,
          \<lparr>tok_type = OPERATOR, tok_value = ''*/'', tok_line = 2, tok_col = 2\<rparr>]
   \<and> scanner_tokenize (''/*a'' @ [CHR 0x0A] @ ''b*/ x'') =
       ([\<lparr>stok_type = ''Comments'', stok_value = ''/*a'' @ [CHR 0x0A] @ ''b*/'', stok_line = 1,
           stok_column = 0\<rparr>,
         \<lparr>stok_type = ''Identifiers'', stok_value = ''x'', stok_line = 1, stok_column = 8\<rparr>],
        [])"
  by code_simp

text \<open>
  C7. Tokenizing \<open>foo(a, b]\<close> and validating the tokens gives the verdict False and
  exactly one diagnostic, the "Mismatched delimiters" message for the \<open>(\<close> at column 4 and
  the \<open>]\<close> at column 9.
\<close>

theorem mismatch_detection:
  "validate_source ''foo(a, b]'' =
     Inr (False,
          [mismatched_msg \<lparr>tok_type = LPAREN, tok_value = ''('', tok_line = 1, tok_col = 4\<rparr>
                          \<lparr>tok_type = RBRACKET, tok_value = '']'', tok_line = 1, tok_col = 9\<rparr>])
   \<and> mismatched_msg \<lparr>tok_type = LPAREN, tok_value = ''('', tok_line = 1, tok_col = 4\<rparr>
                     \<lparr>tok_type = RBRACKET, tok_value = '']'', tok_line = 1, tok_col = 9\<rparr>
       = ''Mismatched delimiters: '' @ [CHR 0x27] @ ''('' @ [CHR 0x27] @ '' at line 1 and ''
           @ [CHR 0x27] @ '']'' @ [CHR 0x27] @ '' at line 1''"
  by code_simp

text \<open>
  C9. \<open>.\<close> and \<open>::\<close> are in the operator vocabulary of the Lexer, which \<open>tokenize\<close> does not
  read. At a scan position where the text starts with \<open>.\<close>, or with a \<open>:\<close> that no second
  \<open>:\<close> follows, no pattern matches, and the loop appends an UNKNOWN token of that one
  character. A token sequence with an UNKNOWN token fails validation, with the
  "Unknown token" message of that token among the diagnostics.
\<close>

theorem dot_and_colon_are_unknown:
  "''.'' \<in> set lexer_operators \<and> ''::'' \<in> set lexer_operators
   \<and> match_patterns token_patterns (CHR ''.'' # rest) = None
   \<and> (rest = [] \<or> hd rest \<noteq> CHR '':'' \<longrightarrow> match_patterns token_patterns (CHR '':'' # rest) = None)
   \<and> (col < length line
        \<and> (line ! col = CHR ''.''
            \<or> line ! col = CHR '':'' \<and> (Suc col = length line \<or> line ! Suc col \<noteq> CHR '':''))
      \<longrightarrow> tokenize_line line_num line col tokens =
            tokenize_line line_num line (col + 1)
              (tokens @ [\<lparr>tok_type = UNKNOWN, tok_value = [line ! col], tok_line = line_num,
                           tok_col = col + 1\<rparr>]))
   \<and> (t \<in> set toks \<and> tok_type t = UNKNOWN
      \<longrightarrow> (\<exists>ds. validate toks = Inr (False, ds) \<and> unknown_msg t \<in> set ds))"
proof -
  have voc: "''.'' \<in> set lexer_operators \<and> ''::'' \<in> set lexer_operators"
    by (simp add: lexer_operators_def)
  have step: "tokenize_line line_num line col tokens =
            tokenize_line line_num line (col + 1)
              (tokens @ [\<lparr>tok_type = UNKNOWN, tok_value = [line ! col], tok_line = line_num,
                           tok_col = col + 1\<rparr>])"
    if lt: "col < length line"
      and ch: "line ! col = CHR ''.''
            \<or> line ! col = CHR '':'' \<and> (Suc col = length line \<or> line ! Suc col \<noteq> CHR '':'')"
  proof -
    from lt have dr: "drop col line = line ! col # drop (Suc col) line"
      by (simp add: Cons_nth_drop_Suc)
    from ch have "match_patterns token_patterns (drop col line) = None"
    proof
      assume "line ! col = CHR ''.''"
      with dr show ?thesis by (simp add: dot_is_unmatched)
    next
      assume c: "line ! col = CHR '':'' \<and> (Suc col = length line \<or> line ! Suc col \<noteq> CHR '':'')"
      have "drop (Suc col) line = [] \<or> hd (drop (Suc col) line) \<noteq> CHR '':''"
      proof (cases "Suc col = length line")
        case True
        then show ?thesis by simp
      next
        case False
        with lt c have "Suc col < length line" "line ! Suc col \<noteq> CHR '':''" by auto
        then show ?thesis by (simp add: hd_drop_conv_nth)
      qed
      from colon_is_unmatched[OF this] dr c show ?thesis by simp
    qed
    with lt show ?thesis by (rule tokenize_line_unmatched)
  qed
  from voc step show ?thesis
    by (auto simp: dot_is_unmatched intro: colon_is_unmatched unknown_token_fails_validation)
qed

theorem dot_and_colon_are_unknown_witness:
  "match_patterns token_patterns ''.b'' = None
   \<and> match_patterns token_patterns '': z'' = None
   \<and> tokenize_line 1 ''a.b'' 1
        [\<lparr>tok_type = IDENTIFIER, tok_value = ''a'', tok_line = 1, tok_col = 1\<rparr>]
      = tokenize_line 1 ''a.b'' 2
        [\<lparr>tok_type = IDENTIFIER, tok_value = ''a'', tok_line = 1, tok_col = 1\<rparr>,
         \<lparr>tok_type = UNKNOWN, tok_value = ''.'', tok_line = 1, tok_col = 2\<rparr>]
   \<and> validate_source ''a.b'' =
       Inr (False, [''Unknown token '' @ [CHR 0x27] @ ''.'' @ [CHR 0x27] @ '' at line 1, col 2''])
   \<and> validate_source ''case 1: f();'' =
       Inr (False, [''Unknown token '' @ [CHR 0x27] @ '':'' @ [CHR 0x27] @ '' at line 1, col 7''])"
proof -
  have a: "match_patterns token_patterns ''.b'' = None"
    using dot_and_colon_are_unknown[of "''b''"] by simp
  have b: "match_patterns token_patterns '': z'' = None"
    using dot_and_colon_are_unknown[of "'' z''"] by simp
  have c: "tokenize_line 1 ''a.b'' 1
        [\<lparr>tok_type = IDENTIFIER, tok_value = ''a'', tok_line = 1, tok_col = 1\<rparr>]
      = tokenize_line 1 ''a.b'' 2
        [\<lparr>tok_type = IDENTIFIER, tok_value = ''a'', tok_line = 1, tok_col = 1\<rparr>,
         \<lparr>tok_type = UNKNOWN, tok_value = ''.'', tok_line = 1, tok_col = 2\<rparr>]"
    using dot_and_colon_are_unknown[of _ 1 "''a.b''" 1
        "[\<lparr>tok_type = IDENTIFIER, tok_value = ''a'', tok_line = 1, tok_col = 1\<rparr>]"]
    by (simp add: numeral_2_eq_2)
  have d: "validate_source ''a.b'' =
       Inr (False, [''Unknown token '' @ [CHR 0x27] @ ''.'' @ [CHR 0x27] @ '' at line 1, col 2''])"
    by code_simp
  have e: "validate_source ''case 1: f();'' =
       Inr (False, [''Unknown token '' @ [CHR 0x27] @ '':'' @ [CHR 0x27] @ '' at line 1, col 7''])"
    by code_simp
  from a b c d e show ?thesis by simp
qed


end
